theory Spec2Isabelle
  imports Complex_Main "HOL-Library.Log_Nat"
begin

section \<open>Employee Benefits Compliance Tracker: KPI and aggregation logic\<close>

text \<open>
  A shallow embedding of \<^verbatim>\<open>benefits_compliance_tracker.py\<close>. The script is a flat
  sequence of top-level assignments over six data frames; every assigned variable becomes
  a function of the tables it reads, under the variable's own name. The current time
  (\<^verbatim>\<open>datetime.now()\<close>) is an explicit argument of the KPIs; the generator of the
  synthetic tables, which reads the clock many times, takes the clock itself.
\<close>

subsection \<open>Binary64 arithmetic\<close>

text \<open>
  The rates are Python floats. A finite binary64 value is a rational number; an operation
  returns the exact result rounded to the nearest value with a 53-bit significand, ties to
  the even significand. The exponent range is not modelled: every quantity below is a
  quotient of two table sizes, times 100, so neither overflow nor a subnormal arises.
\<close>

definition round_half_even :: "rat \<Rightarrow> int" where
  "round_half_even x =
     (let n = \<lfloor>x\<rfloor>; r = x - of_int n
      in if r < 1 / 2 then n else if 1 / 2 < r then n + 1 else if even n then n else n + 1)"

definition pow2 :: "int \<Rightarrow> rat" where
  "pow2 e = (if 0 \<le> e then 2 ^ nat e else 1 / 2 ^ nat (- e))"

definition ilog2 :: "rat \<Rightarrow> int" where
  \<comment> \<open>for \<open>0 < x\<close>: the exponent \<open>e\<close> with \<open>2^e \<le> x < 2^(e+1)\<close>\<close>
  "ilog2 x = (case quotient_of x of (p, q) \<Rightarrow>
      let d = bitlen p - bitlen q in if pow2 d \<le> x then d else d - 1)"

definition float64 :: "rat \<Rightarrow> rat" where
  "float64 x =
     (if x = 0 then 0
      else let e = ilog2 \<bar>x\<bar>;
               m = round_half_even (\<bar>x\<bar> * pow2 (52 - e))
           in sgn x * of_int m * pow2 (e - 52))"

definition fdiv :: "rat \<Rightarrow> rat \<Rightarrow> rat" where
  "fdiv a b = float64 (a / b)"

definition fmul :: "rat \<Rightarrow> rat \<Rightarrow> rat" where
  "fmul a b = float64 (a * b)"

definition fadd :: "rat \<Rightarrow> rat \<Rightarrow> rat" where
  "fadd a b = float64 (a + b)"

subsection \<open>Tables\<close>

text \<open>
  A data frame is the list of its rows, a row a record of its columns. A timestamp counts
  microseconds since the epoch; \<^verbatim>\<open>.dt.date\<close> and \<^verbatim>\<open>.date()\<close> give the day number.
  A date column read with \<^verbatim>\<open>parse_dates\<close> may hold \<^verbatim>\<open>NaT\<close>, which is \<open>None\<close>.
  Several tables have a column \<^verbatim>\<open>employee_id\<close>; the columns of the enrollment,
  eligibility and exception tables carry the prefix of the table's SQL alias.
\<close>

type_synonym timestamp = int
type_synonym date = int

definition us_per_day :: int where
  "us_per_day = 86400000000"

definition dt_date :: "timestamp \<Rightarrow> date" where
  "dt_date t = t div us_per_day"

definition timedelta_days :: "int \<Rightarrow> int" where
  "timedelta_days d = d * us_per_day"

record employee =
  employee_id :: int
  first_name :: string
  last_name :: string
  email :: string
  department_id :: int
  hire_date :: timestamp
  employment_status :: string

record department =
  d_department_id :: int
  department_name :: string


record enrollment =
  enrollment_id :: int
  be_employee_id :: int
  be_plan_id :: int
  enrollment_date :: timestamp
  election_deadline :: "timestamp option"
  plan_start_date :: "timestamp option"
  enrollment_status :: string


record exception =
  exception_id :: int
  ce_employee_id :: int
  exception_type :: string
  exception_date :: timestamp
  severity_level :: string
  resolution_status :: string
  resolved_date :: "timestamp option"

subsection \<open>SQL over the data frames\<close>

text \<open>
  The queries are embedded operator by operator. A \<^verbatim>\<open>LEFT JOIN\<close> pairs every left
  row with each matching right row, or with \<open>None\<close> (SQL \<^verbatim>\<open>NULL\<close>) when none matches; a
  comparison with \<^verbatim>\<open>NULL\<close> never matches. \<^verbatim>\<open>COUNT(DISTINCT x)\<close> counts the
  distinct values that are not \<^verbatim>\<open>NULL\<close>. \<^verbatim>\<open>GROUP BY\<close> makes one row for each
  distinct key. Division is in DOUBLE, and \<^verbatim>\<open>ROUND(x, 2)\<close> on a DOUBLE multiplies by
  100, rounds half away from zero and divides by 100. \<^verbatim>\<open>ORDER BY\<close> is a stable sort;
  the order among equal keys is not fixed by SQL.
\<close>

record status_row =
  row_enrollment_status :: string
  ct :: nat

definition q_enrollment_status :: "enrollment list \<Rightarrow> status_row list" where
  "q_enrollment_status benefits_enrollment =
     sort_key (\<lambda>row. - int (ct row))
       (map (\<lambda>s. \<lparr>row_enrollment_status = s,
                   ct = length (filter (\<lambda>r. enrollment_status r = s) benefits_enrollment)\<rparr>)
            (remdups (map enrollment_status benefits_enrollment)))"

definition status_count :: "status_row list \<Rightarrow> string \<Rightarrow> nat" where
  \<comment> \<open>reading the summary: the \<^verbatim>\<open>ct\<close> of the row of status \<open>s\<close>; a status that has no row
      has no enrollment row, and counts 0\<close>
  "status_count q s =
     (case find (\<lambda>row. row_enrollment_status row = s) q of None \<Rightarrow> 0 | Some row \<Rightarrow> ct row)"

definition left_join :: "'a list \<Rightarrow> 'b list \<Rightarrow> ('a \<Rightarrow> 'b \<Rightarrow> bool) \<Rightarrow> ('a \<times> 'b option) list" where
  "left_join ls rs on =
     concat (map (\<lambda>l. case filter (on l) rs of
                          [] \<Rightarrow> [(l, None)]
                        | ms \<Rightarrow> map (\<lambda>r. (l, Some r)) ms) ls)"

definition non_null :: "'a option list \<Rightarrow> 'a list" where
  "non_null xs = map the (filter (\<lambda>x. x \<noteq> None) xs)"

definition count_distinct :: "'a option list \<Rightarrow> nat" where
  "count_distinct xs = length (remdups (non_null xs))"

definition nullif_zero :: "nat \<Rightarrow> nat option" where
  "nullif_zero n = (if n = 0 then None else Some n)"

definition round_half_away :: "rat \<Rightarrow> int" where
  "round_half_away x = (if 0 \<le> x then \<lfloor>x + 1 / 2\<rfloor> else - \<lfloor>- x + 1 / 2\<rfloor>)"

definition sql_round2 :: "rat \<Rightarrow> rat" where
  "sql_round2 x = fdiv (of_int (round_half_away (fmul x 100))) 100"

definition enrolled :: "enrollment list \<Rightarrow> int list" where
  "enrolled benefits_enrollment =
     remdups (map be_employee_id
       (filter (\<lambda>r. enrollment_status r = ''Enrolled'') benefits_enrollment))"

type_synonym overview_source = "((department \<times> employee option) \<times> int option) \<times> exception option"

definition src_d :: "overview_source \<Rightarrow> department" where
  "src_d row = fst (fst (fst row))"

definition src_e :: "overview_source \<Rightarrow> employee option" where
  "src_e row = snd (fst (fst row))"

definition src_en :: "overview_source \<Rightarrow> int option" where
  "src_en row = snd (fst row)"

definition src_ce :: "overview_source \<Rightarrow> exception option" where
  "src_ce row = snd row"

definition dept_overview_from ::
  "department list \<Rightarrow> employee list \<Rightarrow> enrollment list \<Rightarrow> exception list
     \<Rightarrow> overview_source list" where
  "dept_overview_from departments employees benefits_enrollment compliance_exceptions =
     left_join
       (left_join
          (left_join departments employees (\<lambda>d e. d_department_id d = department_id e))
          (enrolled benefits_enrollment)
          (\<lambda>de en. case snd de of None \<Rightarrow> False | Some e \<Rightarrow> employee_id e = en))
       compliance_exceptions
       (\<lambda>den ce. case snd (fst den) of None \<Rightarrow> False
                   | Some e \<Rightarrow> employee_id e = ce_employee_id ce)"

record overview_row =
  row_department_name :: string
  total_employees :: nat
  enrolled_employees :: nat
  row_enrollment_rate :: "rat option"
  open_exceptions :: nat

definition overview_group :: "string \<Rightarrow> overview_source list \<Rightarrow> overview_row" where
  "overview_group g rows =
     (let total = count_distinct (map (\<lambda>row. map_option employee_id (src_e row)) rows);
          enr = count_distinct (map src_en rows)
      in \<lparr>row_department_name = g,
          total_employees = total,
          enrolled_employees = enr,
          row_enrollment_rate =
            map_option (\<lambda>n. sql_round2 (fdiv (of_nat enr * 100) (of_nat n))) (nullif_zero total),
          open_exceptions = count_distinct (map (\<lambda>row. case src_ce row of None \<Rightarrow> None
              | Some ce \<Rightarrow> if resolution_status ce = ''Open'' then Some (exception_id ce) else None)
              rows)\<rparr>)"

definition order_desc_nulls_last :: "('a \<Rightarrow> rat option) \<Rightarrow> 'a list \<Rightarrow> 'a list" where
  "order_desc_nulls_last k rows =
     sort_key (\<lambda>row. - the (k row)) (filter (\<lambda>row. k row \<noteq> None) rows)
       @ filter (\<lambda>row. k row = None) rows"

definition q_dept_overview ::
  "department list \<Rightarrow> employee list \<Rightarrow> enrollment list \<Rightarrow> exception list
     \<Rightarrow> overview_row list" where
  "q_dept_overview departments employees benefits_enrollment compliance_exceptions =
     (let src = dept_overview_from departments employees benefits_enrollment
                  compliance_exceptions
      in order_desc_nulls_last row_enrollment_rate
           (map (\<lambda>g. overview_group g
                        (filter (\<lambda>row. department_name (src_d row) = g) src))
                (remdups (map (\<lambda>row. department_name (src_d row)) src))))"

subsection \<open>KPIs in Python\<close>

definition nunique :: "'a list \<Rightarrow> nat" where
  "nunique xs = length (remdups xs)"

definition bool_sum :: "bool list \<Rightarrow> nat" where
  \<comment> \<open>\<^verbatim>\<open>.sum()\<close> of a boolean series\<close>
  "bool_sum bs = sum_list (map (\<lambda>b. if b then 1 else 0) bs)"

definition active_employees :: "employee list \<Rightarrow> nat" where
  "active_employees employees_df =
     nunique (map employee_id (filter (\<lambda>e. employment_status e = ''Active'') employees_df))"

definition enrolled_unique :: "enrollment list \<Rightarrow> nat" where
  "enrolled_unique enrollment_df =
     nunique (map be_employee_id
       (filter (\<lambda>r. enrollment_status r = ''Enrolled'') enrollment_df))"

definition pendings :: "enrollment list \<Rightarrow> nat" where
  "pendings enrollment_df =
     bool_sum (map (\<lambda>r. enrollment_status r = ''Pending'') enrollment_df)"

definition enrollment_rate :: "employee list \<Rightarrow> enrollment list \<Rightarrow> rat" where
  "enrollment_rate employees_df enrollment_df =
     (if active_employees employees_df \<noteq> 0
      then fmul (fdiv (of_nat (enrolled_unique enrollment_df))
                      (of_nat (active_employees employees_df))) 100
      else 0)"

definition deadline_passed :: "timestamp \<Rightarrow> timestamp option \<Rightarrow> bool" where
  \<comment> \<open>\<^verbatim>\<open>election_deadline.dt.date < datetime.now().date()\<close>, elementwise; a comparison
      with a missing value is False\<close>
  "deadline_passed now dl = (case dl of None \<Rightarrow> False | Some t \<Rightarrow> dt_date t < dt_date now)"

definition overdue_mask :: "timestamp \<Rightarrow> enrollment \<Rightarrow> bool" where
  "overdue_mask now r =
     (deadline_passed now (election_deadline r) \<and> enrollment_status r \<noteq> ''Enrolled'')"

definition overdue_count :: "timestamp \<Rightarrow> enrollment list \<Rightarrow> nat" where
  "overdue_count now enrollment_df = length (filter (overdue_mask now) enrollment_df)"

definition open_ex :: "exception list \<Rightarrow> nat" where
  "open_ex exceptions_df = bool_sum (map (\<lambda>x. resolution_status x = ''Open'') exceptions_df)"

definition resolved_ex :: "exception list \<Rightarrow> nat" where
  "resolved_ex exceptions_df =
     bool_sum (map (\<lambda>x. resolution_status x = ''Resolved'') exceptions_df)"

definition exception_resolution_rate :: "exception list \<Rightarrow> rat" where
  "exception_resolution_rate exceptions_df =
     (if open_ex exceptions_df + resolved_ex exceptions_df \<noteq> 0
      then fmul (fdiv (of_nat (resolved_ex exceptions_df))
                      (of_nat (open_ex exceptions_df + resolved_ex exceptions_df))) 100
      else 0)"

definition deadline_adherence_rate :: "timestamp \<Rightarrow> enrollment list \<Rightarrow> rat" where
  "deadline_adherence_rate now enrollment_df =
     (if length enrollment_df \<noteq> 0
      then fmul (fdiv (of_int (int (length enrollment_df) - int (overdue_count now enrollment_df)))
                      (of_nat (length enrollment_df))) 100
      else 0)"

definition np_mean3 :: "rat \<Rightarrow> rat \<Rightarrow> rat \<Rightarrow> rat" where
  \<comment> \<open>\<^verbatim>\<open>np.mean\<close> of a three-element array: the sum, accumulated in binary64 from the
      left, divided by the count\<close>
  "np_mean3 a b c = fdiv (fadd (fadd a b) c) 3"

definition overall_compliance_score ::
  "timestamp \<Rightarrow> employee list \<Rightarrow> enrollment list \<Rightarrow> exception list \<Rightarrow> rat" where
  "overall_compliance_score now employees_df enrollment_df exceptions_df =
     np_mean3 (enrollment_rate employees_df enrollment_df)
              (exception_resolution_rate exceptions_df)
              (deadline_adherence_rate now enrollment_df)"

subsection \<open>The enrollment rate as the specification words it\<close>

text \<open>
  The specification counts, in the numerator, the distinct active employees that have at
  least one Enrolled row. This definition follows those words; \<open>enrollment_rate\<close> above
  follows the code.
\<close>

definition spec_enrollment_rate :: "employee list \<Rightarrow> enrollment list \<Rightarrow> rat" where
  "spec_enrollment_rate employees_df enrollment_df =
     (let active = filter (\<lambda>e. employment_status e = ''Active'') employees_df;
          with_enrolled = filter (\<lambda>e. list_ex (\<lambda>r. be_employee_id r = employee_id e
                                    \<and> enrollment_status r = ''Enrolled'') enrollment_df) active
      in if nunique (map employee_id active) = 0 then 0
         else fmul (fdiv (of_nat (nunique (map employee_id with_enrolled)))
                         (of_nat (nunique (map employee_id active)))) 100)"

subsection \<open>Synthetic data\<close>























subsection \<open>Example tables\<close>

definition mk_employee :: "int \<Rightarrow> string \<Rightarrow> employee" where
  "mk_employee i st = \<lparr>employee_id = i, first_name = ''Jane'', last_name = ''Smith'',
     email = ''user@example.com'', department_id = 1, hire_date = 0, employment_status = st\<rparr>"

definition mk_enrollment :: "int \<Rightarrow> int \<Rightarrow> int \<Rightarrow> timestamp option \<Rightarrow> string \<Rightarrow> enrollment" where
  "mk_enrollment i emp pl dl st = \<lparr>enrollment_id = i, be_employee_id = emp, be_plan_id = pl,
     enrollment_date = 0, election_deadline = dl,
     plan_start_date = (if st = ''Enrolled'' then Some (timedelta_days 60) else None),
     enrollment_status = st\<rparr>"

definition mk_exception :: "int \<Rightarrow> int \<Rightarrow> string \<Rightarrow> exception" where
  "mk_exception i emp st = \<lparr>exception_id = i, ce_employee_id = emp,
     exception_type = ''Late Election'', exception_date = 0, severity_level = ''Low'',
     resolution_status = st,
     resolved_date = (if st = ''Resolved'' then Some (timedelta_days 1) else None)\<rparr>"

definition ninth_employees :: "employee list" where
  "ninth_employees = map (\<lambda>i. mk_employee i ''Active'') [1, 2, 3, 4, 5, 6, 7, 8, 9]"

definition ninth_enrollment :: "enrollment list" where
  "ninth_enrollment = mk_enrollment 1 1 1 (Some (timedelta_days 30)) ''Enrolled'' #
     map (\<lambda>i. mk_enrollment i i 1 (Some (timedelta_days 30)) ''Pending'') [2, 3, 4, 5, 6, 7, 8, 9]"

definition ninth_exceptions :: "exception list" where
  "ninth_exceptions = mk_exception 1 1 ''Resolved'' #
     map (\<lambda>i. mk_exception i i ''Open'') [2, 3, 4, 5, 6, 7, 8, 9]"


definition lone_employees :: "employee list" where
  "lone_employees = [mk_employee 7 ''Active'', mk_employee 8 ''Inactive'']"

definition lone_enrollment :: "enrollment list" where
  "lone_enrollment = [mk_enrollment 1 7 1 (Some (timedelta_days 30)) ''Enrolled'',
                      mk_enrollment 2 7 2 (Some (timedelta_days 30)) ''Pending'']"

definition inactive_enrolled_employees :: "employee list" where
  "inactive_enrolled_employees =
     [mk_employee 1 ''Active'', mk_employee 2 ''Inactive'', mk_employee 3 ''Inactive'']"

definition inactive_enrolled_enrollment :: "enrollment list" where
  "inactive_enrolled_enrollment =
     [mk_enrollment 1 2 1 (Some (timedelta_days 30)) ''Enrolled'',
      mk_enrollment 2 3 1 (Some (timedelta_days 30)) ''Enrolled'']"

definition hr_department :: "department list" where
  "hr_department = [\<lparr>d_department_id = 1, department_name = ''Human Resources''\<rparr>]"


definition no_deadline_row :: enrollment where
  "no_deadline_row = mk_enrollment 1 1 1 None ''Pending''"

definition waived_exceptions :: "exception list" where
  "waived_exceptions = [mk_exception 1 1 ''Open'', mk_exception 2 2 ''Waived'',
                        mk_exception 3 3 ''Resolved'']"

definition plain_exceptions :: "exception list" where
  "plain_exceptions = [mk_exception 1 5 ''Resolved'', mk_exception 2 6 ''Open'']"

definition two_departments :: "department list" where
  "two_departments = [\<lparr>d_department_id = 1, department_name = ''Human Resources''\<rparr>,
                      \<lparr>d_department_id = 2, department_name = ''Finance''\<rparr>]"

definition three_employees :: "employee list" where
  "three_employees = [mk_employee 1 ''Active'', mk_employee 2 ''Active'', mk_employee 3 ''Inactive'']"

definition three_enrollment :: "enrollment list" where
  "three_enrollment = [mk_enrollment 1 1 1 (Some (timedelta_days 30)) ''Enrolled'',
                       mk_enrollment 2 1 2 (Some (timedelta_days 30)) ''Enrolled'',
                       mk_enrollment 3 2 1 (Some (timedelta_days 30)) ''Pending'']"

definition three_exceptions :: "exception list" where
  "three_exceptions = [mk_exception 1 1 ''Open'', mk_exception 2 1 ''Open'',
                       mk_exception 3 2 ''Resolved'']"


definition mixed_enrollment :: "enrollment list" where
  "mixed_enrollment = [mk_enrollment 1 1 1 (Some (timedelta_days 30)) ''Enrolled'',
                       mk_enrollment 2 1 2 (Some (timedelta_days 30)) ''Declined'',
                       mk_enrollment 3 2 1 (Some (timedelta_days 30)) ''Pending'',
                       mk_enrollment 4 2 2 (Some (timedelta_days 30)) ''Enrolled'']"

definition empty_department :: "department list" where
  "empty_department = [\<lparr>d_department_id = 2, department_name = ''Finance''\<rparr>]"



section \<open>Properties\<close>

subsection \<open>Binary64 rounding\<close>

lemma pow2_powi: "pow2 e = 2 powi e"
  by (simp add: pow2_def power_int_def power_inverse inverse_eq_divide power_one_over)

lemma pow2_pos: "0 < pow2 e"
  by (simp add: pow2_powi)

lemma pow2_add: "pow2 (a + b) = pow2 a * pow2 b"
  by (simp add: pow2_powi power_int_add)

lemma pow2_mono: "a \<le> b \<Longrightarrow> pow2 a \<le> pow2 b"
  by (simp add: pow2_powi power_int_increasing)

lemma bitlen_pow2_bounds:
  assumes "0 < p"
  shows "pow2 (bitlen p - 1) \<le> of_int p" and "of_int p < pow2 (bitlen p)"
proof -
  from assms have b1: "1 \<le> bitlen p" by (auto simp: bitlen_alt_def)
  have "(2::int) ^ nat (bitlen p - 1) \<le> p" using bitlen_bounds[OF assms] by simp
  then have "(of_int ((2::int) ^ nat (bitlen p - 1)) :: rat) \<le> of_int p"
    by (simp only: of_int_le_iff)
  then show "pow2 (bitlen p - 1) \<le> of_int p"
    using b1 by (simp add: pow2_def)
  have "p < (2::int) ^ nat (bitlen p)" using bitlen_bounds[OF assms] by simp
  then have "(of_int p :: rat) < of_int ((2::int) ^ nat (bitlen p))"
    by (simp only: of_int_less_iff)
  then show "of_int p < pow2 (bitlen p)"
    using b1 by (simp add: pow2_def)
qed

lemma ilog2_bounds:
  assumes "0 < x"
  shows "pow2 (ilog2 x) \<le> x \<and> x < pow2 (ilog2 x + 1)"
proof -
  obtain p q where pq: "quotient_of x = (p, q)" by (cases "quotient_of x")
  have q: "0 < q" using pq by (rule quotient_of_denom_pos)
  have x: "x = of_int p / of_int q" using pq by (rule quotient_of_div)
  have p: "0 < p" using assms q x by (simp add: zero_less_divide_iff)
  let ?d = "bitlen p - bitlen q"
  have "of_int p < pow2 (bitlen p)" using p by (rule bitlen_pow2_bounds)
  moreover have "pow2 (bitlen q - 1) \<le> of_int q" using q by (rule bitlen_pow2_bounds)
  ultimately have "of_int p * pow2 (bitlen q - 1) < pow2 (bitlen p) * of_int q"
    using p q pow2_pos by (simp add: mult_less_le_imp_less)
  then have "x * pow2 (bitlen q - 1) < pow2 (bitlen p)"
    using q by (simp add: x divide_simps mult.commute)
  moreover have "pow2 (bitlen p) = pow2 (?d + 1) * pow2 (bitlen q - 1)"
    by (simp flip: pow2_add)
  ultimately have up: "x < pow2 (?d + 1)"
    using pow2_pos[of "bitlen q - 1"] by simp
  show ?thesis
  proof (cases "pow2 ?d \<le> x")
    case True
    then show ?thesis using up pq by (simp add: ilog2_def)
  next
    case False
    have "pow2 (bitlen p - 1) \<le> of_int p" using p by (rule bitlen_pow2_bounds)
    moreover have "of_int q < pow2 (bitlen q)" using q by (rule bitlen_pow2_bounds)
    ultimately have "pow2 (bitlen p - 1) * of_int q \<le> of_int p * pow2 (bitlen q)"
      using p q pow2_pos[of "bitlen p - 1"]
      by (intro mult_mono) (simp_all add: less_imp_le)
    then have "pow2 (bitlen p - 1) \<le> x * pow2 (bitlen q)"
      using q by (simp add: x divide_simps mult.commute)
    moreover have "pow2 (bitlen p - 1) = pow2 (?d - 1) * pow2 (bitlen q)"
      by (simp flip: pow2_add)
    ultimately have "pow2 (?d - 1) \<le> x"
      using pow2_pos[of "bitlen q"] by simp
    then show ?thesis using False pq by (simp add: ilog2_def)
  qed
qed


lemma round_half_even_error: "\<bar>of_int (round_half_even x) - x\<bar> \<le> 1 / 2"
proof -
  have "of_int \<lfloor>x\<rfloor> \<le> x" "x < of_int \<lfloor>x\<rfloor> + 1" by linarith+
  then show ?thesis
    by (auto simp: round_half_even_def Let_def)
qed

lemma round_half_even_of_int [simp]: "round_half_even (of_int k) = k"
  by (simp add: round_half_even_def)

lemma round_half_even_le: 
  assumes "x \<le> of_int k" shows "round_half_even x \<le> k"
proof (cases "x = of_int k")
  case True then show ?thesis by simp
next
  case False
  with assms have lt: "x < of_int k" by simp
  then have f: "\<lfloor>x\<rfloor> < k" by (simp add: floor_less_iff)
  then show ?thesis by (auto simp: round_half_even_def Let_def)
qed

lemma round_half_even_nonneg: "0 \<le> x \<Longrightarrow> 0 \<le> round_half_even x"
  by (auto simp: round_half_even_def Let_def)

lemma float64_pos_unfold:
  "0 < x \<Longrightarrow> float64 x =
      of_int (round_half_even (x * pow2 (52 - ilog2 x))) * pow2 (ilog2 x - 52)"
  by (simp add: float64_def Let_def)

lemma float64_zero [simp]: "float64 0 = 0"
  by (simp add: float64_def)

lemma float64_nonneg: "0 \<le> x \<Longrightarrow> 0 \<le> float64 x"
proof (cases "x = 0")
  case True then show ?thesis by simp
next
  case False
  assume "0 \<le> x"
  with False have x: "0 < x" by simp
  have "0 \<le> x * pow2 (52 - ilog2 x)" using x pow2_pos[of "52 - ilog2 x"] by simp
  then have "0 \<le> round_half_even (x * pow2 (52 - ilog2 x))" by (rule round_half_even_nonneg)
  then show ?thesis using x pow2_pos[of "ilog2 x - 52"] by (simp add: float64_pos_unfold)
qed

lemma float64_abs_error:
  assumes "0 \<le> x"
  shows "\<bar>float64 x - x\<bar> \<le> x / 2 ^ 53"
proof (cases "x = 0")
  case True then show ?thesis by simp
next
  case False
  with assms have x: "0 < x" by simp
  let ?e = "ilog2 x"
  let ?s = "x * pow2 (52 - ?e)"
  let ?m = "round_half_even ?s"
  have one: "pow2 (52 - ?e) * pow2 (?e - 52) = 1"
    by (simp flip: pow2_add) (simp add: pow2_def)
  have "float64 x - x = (of_int ?m - ?s) * pow2 (?e - 52)"
    using one by (simp add: float64_pos_unfold[OF x] algebra_simps)
  then have "\<bar>float64 x - x\<bar> = \<bar>of_int ?m - ?s\<bar> * pow2 (?e - 52)"
    using pow2_pos[of "?e - 52"] by (simp add: abs_mult)
  also have "\<dots> \<le> (1 / 2) * pow2 (?e - 52)"
    using round_half_even_error[of ?s] pow2_pos[of "?e - 52"]
    by (intro mult_right_mono) simp_all
  also have "\<dots> = pow2 ?e * pow2 (- 53)"
  proof -
    have "pow2 (?e - 52) = pow2 ?e * pow2 (- 52)" by (simp flip: pow2_add)
    then show ?thesis by (simp add: pow2_def)
  qed
  also have "\<dots> \<le> x * pow2 (- 53)"
    using ilog2_bounds[OF x] pow2_pos[of "- 53"] by (intro mult_right_mono) simp_all
  also have "\<dots> = x / 2 ^ 53" by (simp add: pow2_def)
  finally show ?thesis .
qed

lemma float64_le_of_int:
  assumes "0 \<le> x" and "x \<le> of_int k" and "k \<le> 2 ^ 52"
  shows "float64 x \<le> of_int k"
proof (cases "x = 0")
  case True then show ?thesis using assms by simp
next
  case False
  with assms have x: "0 < x" by simp
  let ?e = "ilog2 x"
  have "pow2 ?e \<le> x" using ilog2_bounds[OF x] by simp
  also have "x \<le> of_int k" by fact
  also have "(of_int k :: rat) \<le> of_int (2 ^ 52)" using assms(3) by (simp only: of_int_le_iff)
  finally have "pow2 ?e \<le> pow2 52" by (simp add: pow2_def)
  then have e: "?e \<le> 52"
    by (simp add: pow2_powi power_int_le_imp_le_exp[of 2])
  then have p: "pow2 (52 - ?e) = of_int (2 ^ nat (52 - ?e))" by (simp add: pow2_def)
  have "x * pow2 (52 - ?e) \<le> of_int k * pow2 (52 - ?e)"
    using assms(2) pow2_pos[of "52 - ?e"] by (intro mult_right_mono) simp_all
  also have "\<dots> = of_int (k * 2 ^ nat (52 - ?e))" by (simp add: p)
  finally have "round_half_even (x * pow2 (52 - ?e)) \<le> k * 2 ^ nat (52 - ?e)"
    by (rule round_half_even_le)
  then have "(of_int (round_half_even (x * pow2 (52 - ?e))) :: rat) \<le> of_int (k * 2 ^ nat (52 - ?e))"
    by (simp only: of_int_le_iff)
  then have "float64 x \<le> of_int (k * 2 ^ nat (52 - ?e)) * pow2 (?e - 52)"
    using pow2_pos[of "?e - 52"] by (simp add: float64_pos_unfold[OF x])
  also have "\<dots> = of_int k * (pow2 (52 - ?e) * pow2 (?e - 52))" by (simp add: p)
  also have "\<dots> = of_int k" by (simp flip: pow2_add) (simp add: pow2_def)
  finally show ?thesis .
qed

lemma float64_upper:
  assumes "0 \<le> x" shows "float64 x \<le> x * (1 + 1 / 2 ^ 53)"
proof -
  have "float64 x - x \<le> x / 2 ^ 53" using float64_abs_error[OF assms] by linarith
  then show ?thesis by (simp add: algebra_simps)
qed

lemma float64_lower:
  assumes "0 \<le> x" shows "x * (1 - 1 / 2 ^ 53) \<le> float64 x"
proof -
  have "x - float64 x \<le> x / 2 ^ 53" using float64_abs_error[OF assms] by linarith
  then show ?thesis by (simp add: algebra_simps)
qed

lemma np_mean3_upper:
  assumes a: "0 \<le> a" and b: "0 \<le> b" and c: "0 \<le> c"
    and aM: "a \<le> M" and bM: "b \<le> M" and cM: "c \<le> M"
  shows "np_mean3 a b c \<le> M * (1 + 1 / 2 ^ 51)"
proof -
  define U :: rat where "U = 1 + 1 / 2 ^ 53"
  have U1: "1 \<le> U" and U0: "0 \<le> U" by (simp_all add: U_def)
  have U3: "U * U * U \<le> 1 + 1 / 2 ^ 51" by (simp add: U_def)
  have M0: "0 \<le> M" using a aM by simp
  let ?t = "fadd a b"
  let ?s = "fadd ?t c"
  have t0: "0 \<le> ?t" using a b by (simp add: fadd_def float64_nonneg)
  have t: "?t \<le> (a + b) * U"
    unfolding fadd_def U_def using a b by (intro float64_upper) simp
  have s0: "0 \<le> ?s" using t0 c by (simp add: fadd_def float64_nonneg)
  have tc0: "0 \<le> ?t + c" using t0 c by simp
  have "?s \<le> (?t + c) * U"
    using float64_upper[OF tc0] by (simp add: fadd_def U_def)
  also have "\<dots> \<le> ((a + b) * U + c * U) * U"
  proof -
    have "c \<le> c * U" using c U1 by (simp add: mult_le_cancel_left1)
    with t have "?t + c \<le> (a + b) * U + c * U" by simp
    then show ?thesis using U0 by (rule mult_right_mono)
  qed
  also have "\<dots> = (a + b + c) * (U * U)" by (simp add: algebra_simps)
  finally have s: "?s \<le> (a + b + c) * (U * U)" .
  have s30: "0 \<le> ?s / 3" using s0 by simp
  have "np_mean3 a b c \<le> (?s / 3) * U"
    using float64_upper[OF s30] by (simp add: np_mean3_def fdiv_def U_def)
  also have "\<dots> \<le> ((a + b + c) * (U * U) / 3) * U"
    using s U0 by (intro mult_right_mono) simp_all
  also have "\<dots> = ((a + b + c) / 3) * (U * U * U)" by simp
  also have "\<dots> \<le> M * (U * U * U)"
  proof -
    have "(a + b + c) / 3 \<le> M" using aM bM cM by simp
    moreover have "0 \<le> U * U * U" using U0 by simp
    ultimately show ?thesis by (rule mult_right_mono)
  qed
  also have "\<dots> \<le> M * (1 + 1 / 2 ^ 51)"
    using U3 M0 by (rule mult_left_mono)
  finally show ?thesis .
qed

lemma np_mean3_lower:
  assumes a: "0 \<le> a" and b: "0 \<le> b" and c: "0 \<le> c"
    and am: "m \<le> a" and bm: "m \<le> b" and cm: "m \<le> c" and m0: "0 \<le> m"
  shows "m * (1 - 1 / 2 ^ 51) \<le> np_mean3 a b c"
proof -
  define L :: rat where "L = 1 - 1 / 2 ^ 53"
  have L1: "L \<le> 1" and L0: "0 \<le> L" by (simp_all add: L_def)
  have L3: "1 - 1 / 2 ^ 51 \<le> L * L * L" by (simp add: L_def)
  let ?t = "fadd a b"
  let ?s = "fadd ?t c"
  have t0: "0 \<le> ?t" using a b by (simp add: fadd_def float64_nonneg)
  have t: "(a + b) * L \<le> ?t"
    unfolding fadd_def L_def using a b by (intro float64_lower) simp
  have s0: "0 \<le> ?s" using t0 c by (simp add: fadd_def float64_nonneg)
  have "(a + b + c) * (L * L) = ((a + b) * L + c * L) * L" by (simp add: algebra_simps)
  also have "\<dots> \<le> (?t + c) * L"
  proof -
    have "c * L \<le> c" using c L1 by (simp add: mult_le_cancel_left2)
    with t have "(a + b) * L + c * L \<le> ?t + c" by simp
    then show ?thesis using L0 by (rule mult_right_mono)
  qed
  also have "\<dots> \<le> ?s"
  proof -
    have "0 \<le> ?t + c" using t0 c by simp
    from float64_lower[OF this] show ?thesis by (simp add: fadd_def L_def)
  qed
  finally have s: "(a + b + c) * (L * L) \<le> ?s" .
  have "m * (1 - 1 / 2 ^ 51) \<le> m * (L * L * L)"
    using L3 m0 by (rule mult_left_mono)
  also have "\<dots> \<le> ((a + b + c) / 3) * (L * L * L)"
  proof -
    have "m \<le> (a + b + c) / 3" using am bm cm by simp
    moreover have "0 \<le> L * L * L" using L0 by simp
    ultimately show ?thesis by (rule mult_right_mono)
  qed
  also have "\<dots> = ((a + b + c) * (L * L) / 3) * L" by simp
  also have "\<dots> \<le> (?s / 3) * L"
    using s L0 by (intro mult_right_mono) simp_all
  also have "\<dots> \<le> np_mean3 a b c"
  proof -
    have "0 \<le> ?s / 3" using s0 by simp
    from float64_lower[OF this] show ?thesis by (simp add: np_mean3_def fdiv_def L_def)
  qed
  finally show ?thesis .
qed

subsection \<open>Counting\<close>

lemma bool_sum_filter: "bool_sum (map P xs) = length (filter P xs)"
  by (induction xs) (simp_all add: bool_sum_def)

lemma nunique_card: "nunique xs = card (set xs)"
  by (simp add: nunique_def length_remdups_card_conv)

lemma overdue_count_le: "overdue_count now enrollment_df \<le> length enrollment_df"
  by (simp add: overdue_count_def)

subsection \<open>Signs of the rates\<close>

lemma if_neg_swap: "(if \<not> b then x else y) = (if b then y else x)"
  by simp

lemma fdiv_nonneg: "0 \<le> a \<Longrightarrow> 0 \<le> b \<Longrightarrow> 0 \<le> fdiv a b"
  by (simp add: fdiv_def float64_nonneg)

lemma fmul_nonneg: "0 \<le> a \<Longrightarrow> 0 \<le> b \<Longrightarrow> 0 \<le> fmul a b"
  by (simp add: fmul_def float64_nonneg)

lemma enrollment_rate_nonneg: "0 \<le> enrollment_rate employees_df enrollment_df"
  by (simp add: enrollment_rate_def fdiv_nonneg fmul_nonneg)

lemma exception_resolution_rate_nonneg: "0 \<le> exception_resolution_rate exceptions_df"
  by (simp add: exception_resolution_rate_def fdiv_nonneg fmul_nonneg)

lemma deadline_adherence_rate_nonneg: "0 \<le> deadline_adherence_rate now enrollment_df"
proof -
  have "(0::rat) \<le> of_int (int (length enrollment_df) - int (overdue_count now enrollment_df))"
    using overdue_count_le[of now enrollment_df] by simp
  then show ?thesis
    by (simp add: deadline_adherence_rate_def fdiv_nonneg fmul_nonneg)
qed

lemma rate_1_1: "fmul (fdiv 1 1) 100 = 100"
  by code_simp

lemma rate_1_2: "fmul (fdiv 1 2) 100 = 50"
  by code_simp

subsection \<open>The rates\<close>

text \<open>
  C5. The exception resolution rate is the number of Resolved rows divided by the number
  of Open and Resolved rows together, times 100, each operation in binary64; when there is
  no Open and no Resolved row the rate is 0 and nothing is divided.
\<close>

theorem exception_resolution_rate_formula:
  "exception_resolution_rate exceptions_df =
     (let opened = length (filter (\<lambda>x. resolution_status x = ''Open'') exceptions_df);
          resolved = length (filter (\<lambda>x. resolution_status x = ''Resolved'') exceptions_df)
      in if opened + resolved = 0 then 0
         else fmul (fdiv (of_nat resolved) (of_nat (opened + resolved))) 100)"
  by (simp add: exception_resolution_rate_def open_ex_def resolved_ex_def bool_sum_filter Let_def)

text \<open>
  C3. The deadline adherence rate is the number of enrollment rows that are not overdue,
  divided by the number of enrollment rows, times 100, and 0 for an empty table. A row is
  overdue exactly when it has an election deadline whose date is strictly before the
  current date and its status is not Enrolled.
\<close>

theorem deadline_adherence_rate_formula:
  "deadline_adherence_rate now enrollment_df =
     (let total = length enrollment_df;
          overdue = length (filter
            (\<lambda>r. (\<exists>t. election_deadline r = Some t \<and> dt_date t < dt_date now)
                 \<and> enrollment_status r \<noteq> ''Enrolled'') enrollment_df)
      in if total = 0 then 0
         else fmul (fdiv (of_nat (total - overdue)) (of_nat total)) 100)"
proof -
  have m: "overdue_mask now =
       (\<lambda>r. (\<exists>t. election_deadline r = Some t \<and> dt_date t < dt_date now)
            \<and> enrollment_status r \<noteq> ''Enrolled'')"
    by (rule ext) (simp add: overdue_mask_def deadline_passed_def split: option.splits)
  have le: "overdue_count now enrollment_df \<le> length enrollment_df"
    by (rule overdue_count_le)
  have "(of_int (int (length enrollment_df) - int (overdue_count now enrollment_df)) :: rat)
          = of_nat (length enrollment_df - overdue_count now enrollment_df)"
    using le by (simp add: of_nat_diff)
  then show ?thesis
    by (simp add: deadline_adherence_rate_def Let_def overdue_count_def m)
qed

text \<open>
  What the code computes as the enrollment rate: the number of distinct employee ids that
  occur in an Enrolled row, whether or not the employee is active, divided by the number of
  distinct ids of active employees, times 100, and 0 without any division when there is no
  active employee. When every Enrolled row belongs to an active employee this is the rate
  as the specification words it.
\<close>

lemma enrollment_rate_unfolded:
  "enrollment_rate employees_df enrollment_df =
     (if card (employee_id ` {e \<in> set employees_df. employment_status e = ''Active''}) = 0 then 0
      else fmul (fdiv (of_nat (card (be_employee_id `
                         {r \<in> set enrollment_df. enrollment_status r = ''Enrolled''})))
                      (of_nat (card (employee_id `
                         {e \<in> set employees_df. employment_status e = ''Active''})))) 100) \<and>
   (be_employee_id ` {r \<in> set enrollment_df. enrollment_status r = ''Enrolled''}
      \<subseteq> employee_id ` {e \<in> set employees_df. employment_status e = ''Active''} \<longrightarrow>
    enrollment_rate employees_df enrollment_df = spec_enrollment_rate employees_df enrollment_df)"
proof -
  let ?A = "employee_id ` {e \<in> set employees_df. employment_status e = ''Active''}"
  let ?En = "be_employee_id ` {r \<in> set enrollment_df. enrollment_status r = ''Enrolled''}"
  have a: "active_employees employees_df = card ?A"
    by (simp add: active_employees_def nunique_card)
  have e: "enrolled_unique enrollment_df = card ?En"
    by (simp add: enrolled_unique_def nunique_card)
  have first: "enrollment_rate employees_df enrollment_df =
     (if card ?A = 0 then 0 else fmul (fdiv (of_nat (card ?En)) (of_nat (card ?A))) 100)"
    by (simp only: enrollment_rate_def a e if_neg_swap)
  have second: "enrollment_rate employees_df enrollment_df
                  = spec_enrollment_rate employees_df enrollment_df" if sub: "?En \<subseteq> ?A"
  proof -
    have "set (map employee_id (filter (\<lambda>e. list_ex (\<lambda>r. be_employee_id r = employee_id e
              \<and> enrollment_status r = ''Enrolled'') enrollment_df)
            (filter (\<lambda>e. employment_status e = ''Active'') employees_df))) = ?A \<inter> ?En"
      apply (auto simp: list_ex_iff)
      subgoal for xa r by (rule image_eqI[where x = r]) simp_all
      subgoal for xa xb by (rule image_eqI[where x = xa]) auto
      done
    also have "\<dots> = ?En" using sub by blast
    finally have w: "nunique (map employee_id (filter (\<lambda>e. list_ex (\<lambda>r. be_employee_id r = employee_id e
              \<and> enrollment_status r = ''Enrolled'') enrollment_df)
            (filter (\<lambda>e. employment_status e = ''Active'') employees_df))) = card ?En"
      by (simp only: nunique_card)
    have a': "nunique (map employee_id (filter (\<lambda>e. employment_status e = ''Active'') employees_df))
             = card ?A"
      by (simp add: nunique_card)
    show ?thesis
      unfolding spec_enrollment_rate_def Let_def w a' first by simp
  qed
  from first second show ?thesis by blast
qed

text \<open>
  C1 fails on the code. The denominator counts the active employees only, while the
  numerator counts every employee id that has an Enrolled row. With one active employee
  without rows and two inactive employees with an Enrolled row each, the code gives 200
  where the rate of C1 is 0. On the same tables the department overview, which joins the
  enrolled ids to the employees it counts, reports two enrolled out of three employees.
\<close>

theorem enrollment_rate_counts_inactive:
  "enrollment_rate inactive_enrolled_employees inactive_enrolled_enrollment = 200 \<and>
   spec_enrollment_rate inactive_enrolled_employees inactive_enrolled_enrollment = 0 \<and>
   map (\<lambda>row. (total_employees row, enrolled_employees row))
     (q_dept_overview hr_department inactive_enrolled_employees inactive_enrolled_enrollment [])
     = [(3, 2)]"
proof -
  have code: "enrollment_rate inactive_enrolled_employees inactive_enrolled_enrollment = 200"
    by code_simp
  have spec: "spec_enrollment_rate inactive_enrolled_employees inactive_enrolled_enrollment = 0"
    by code_simp
  have sql: "map (\<lambda>row. (total_employees row, enrolled_employees row))
     (q_dept_overview hr_department inactive_enrolled_employees inactive_enrolled_enrollment [])
     = [(3, 2)]"
    by (simp add: q_dept_overview_def dept_overview_from_def left_join_def enrolled_def
      overview_group_def order_desc_nulls_last_def count_distinct_def non_null_def
      nullif_zero_def src_d_def src_e_def src_en_def src_ce_def hr_department_def
      inactive_enrolled_employees_def inactive_enrolled_enrollment_def mk_employee_def
      mk_enrollment_def Let_def)
  from code spec sql show ?thesis by (intro conjI)
qed

text \<open>
  C4, as stated, fails in binary64. With nine active employees of which one is enrolled,
  nine enrollment rows of which eight are overdue and nine exceptions of which one is
  resolved, each rate is the binary64 value of 100/9 and the mean of the three, computed as
  the code does, is one unit in the last place below it.
\<close>

theorem overall_compliance_score_counterexample:
  "overall_compliance_score (timedelta_days 100) ninth_employees ninth_enrollment ninth_exceptions
     < min (enrollment_rate ninth_employees ninth_enrollment)
           (min (exception_resolution_rate ninth_exceptions)
                (deadline_adherence_rate (timedelta_days 100) ninth_enrollment))"
  by code_simp

text \<open>
  C4, amended. The score is the binary64 mean of the three rates: their sum accumulated
  with rounding, divided by 3 with rounding. It lies within the interval from the minimum
  to the maximum of the three rates widened by the relative rounding error \<open>2^-51\<close>.
\<close>

theorem overall_compliance_score_bounds:
  "overall_compliance_score now employees_df enrollment_df exceptions_df =
     fdiv (fadd (fadd (enrollment_rate employees_df enrollment_df)
                      (exception_resolution_rate exceptions_df))
                (deadline_adherence_rate now enrollment_df)) 3 \<and>
   min (enrollment_rate employees_df enrollment_df)
       (min (exception_resolution_rate exceptions_df)
            (deadline_adherence_rate now enrollment_df)) * (1 - 1 / 2 ^ 51)
     \<le> overall_compliance_score now employees_df enrollment_df exceptions_df \<and>
   overall_compliance_score now employees_df enrollment_df exceptions_df
     \<le> max (enrollment_rate employees_df enrollment_df)
           (max (exception_resolution_rate exceptions_df)
                (deadline_adherence_rate now enrollment_df)) * (1 + 1 / 2 ^ 51)"
proof -
  let ?a = "enrollment_rate employees_df enrollment_df"
  let ?b = "exception_resolution_rate exceptions_df"
  let ?c = "deadline_adherence_rate now enrollment_df"
  have a: "0 \<le> ?a" by (rule enrollment_rate_nonneg)
  have b: "0 \<le> ?b" by (rule exception_resolution_rate_nonneg)
  have c: "0 \<le> ?c" by (rule deadline_adherence_rate_nonneg)
  have m0: "0 \<le> min ?a (min ?b ?c)" using a b c by simp
  have lo: "min ?a (min ?b ?c) * (1 - 1 / 2 ^ 51) \<le> np_mean3 ?a ?b ?c"
    using a b c _ _ _ m0 by (rule np_mean3_lower) simp_all
  have hi: "np_mean3 ?a ?b ?c \<le> max ?a (max ?b ?c) * (1 + 1 / 2 ^ 51)"
    using a b c by (rule np_mean3_upper) simp_all
  show ?thesis
    using lo hi unfolding overall_compliance_score_def np_mean3_def by blast
qed

text \<open>
  C9. A row without an election deadline is never overdue, whatever its status: the
  overdue count is the overdue count of the rows that have a deadline, and the rows
  without one are all among those counted on time.
\<close>

theorem missing_deadline_never_overdue:
  "(election_deadline r = None \<longrightarrow> \<not> overdue_mask now r) \<and>
   overdue_count now enrollment_df = overdue_count now
       (filter (\<lambda>r. election_deadline r \<noteq> None) enrollment_df) \<and>
   length (filter (\<lambda>r. election_deadline r = None) enrollment_df)
     \<le> length enrollment_df - overdue_count now enrollment_df"
proof -
  have 1: "election_deadline r = None \<longrightarrow> \<not> overdue_mask now r"
    by (simp add: overdue_mask_def deadline_passed_def)
  have 2: "overdue_count now enrollment_df = overdue_count now
       (filter (\<lambda>r. election_deadline r \<noteq> None) enrollment_df)"
    unfolding overdue_count_def filter_filter
    by (rule arg_cong[where f = length], rule filter_cong)
       (auto simp: overdue_mask_def deadline_passed_def split: option.splits)
  have 3: "length (filter (\<lambda>r. election_deadline r = None) enrollment_df)
     \<le> length enrollment_df - overdue_count now enrollment_df"
  proof -
    have "length (filter (\<lambda>r. election_deadline r = None) enrollment_df)
            + length (filter (overdue_mask now) enrollment_df) \<le> length enrollment_df"
      by (induction enrollment_df) (auto simp: overdue_mask_def deadline_passed_def)
    then show ?thesis by (simp add: overdue_count_def)
  qed
  from 1 2 3 show ?thesis by blast
qed

text \<open>
  C9 at a Pending row without a deadline.
\<close>

theorem missing_deadline_never_overdue_witness:
  "election_deadline no_deadline_row = None \<and>
   \<not> overdue_mask (timedelta_days 100) no_deadline_row"
proof -
  have h: "election_deadline no_deadline_row = None"
    by (simp add: no_deadline_row_def mk_enrollment_def)
  have "election_deadline no_deadline_row = None
          \<longrightarrow> \<not> overdue_mask (timedelta_days 100) no_deadline_row"
    using missing_deadline_never_overdue[of no_deadline_row "timedelta_days 100" "[]"]
    by (rule conjunct1)
  with h show ?thesis by (simp only: simp_thms)
qed

text \<open>
  C7. One active employee with exactly two enrollment rows, one Enrolled and one Pending on
  another plan with an election deadline before the current date: the enrollment rate is
  100 and the deadline adherence rate is 50.
\<close>

theorem lone_employee_scenario:
  assumes e: "e \<in> set employees_df" "employment_status e = ''Active''"
    and only: "\<forall>e'\<in>set employees_df. employment_status e' = ''Active''
                 \<longrightarrow> employee_id e' = employee_id e"
    and rows: "enrollment_df = [r1, r2] \<or> enrollment_df = [r2, r1]"
    and r1: "be_employee_id r1 = employee_id e" "enrollment_status r1 = ''Enrolled''"
    and r2: "be_employee_id r2 = employee_id e" "enrollment_status r2 = ''Pending''"
    and other: "be_plan_id r2 \<noteq> be_plan_id r1"
    and late: "election_deadline r2 = Some t" "dt_date t < dt_date now"
  shows "enrollment_rate employees_df enrollment_df = 100 \<and>
         deadline_adherence_rate now enrollment_df = 50"
proof -
  have "employee_id ` {e' \<in> set employees_df. employment_status e' = ''Active''} = {employee_id e}"
  proof (intro equalityI subsetI)
    fix x assume "x \<in> employee_id ` {e' \<in> set employees_df. employment_status e' = ''Active''}"
    then obtain e' where "e' \<in> set employees_df" "employment_status e' = ''Active''"
        "x = employee_id e'" by blast
    with only show "x \<in> {employee_id e}" by simp
  next
    fix x assume "x \<in> {employee_id e}"
    with e show "x \<in> employee_id ` {e' \<in> set employees_df. employment_status e' = ''Active''}"
      by blast
  qed
  then have a: "active_employees employees_df = 1"
    by (simp add: active_employees_def nunique_card)
  have ne: "enrollment_status r2 \<noteq> ''Enrolled''" using r2 by simp
  have "filter (\<lambda>r. enrollment_status r = ''Enrolled'') enrollment_df = [r1]"
    using rows r1 ne by (elim disjE) simp_all
  then have u: "enrolled_unique enrollment_df = 1"
    by (simp add: enrolled_unique_def nunique_def)
  have len: "length enrollment_df = 2" using rows by (elim disjE) simp_all
  have o1: "\<not> overdue_mask now r1" using r1 by (simp add: overdue_mask_def)
  have o2: "overdue_mask now r2" using ne late by (simp add: overdue_mask_def deadline_passed_def)
  have "filter (overdue_mask now) enrollment_df = [r2]"
    using rows o1 o2 by (elim disjE) simp_all
  then have od: "overdue_count now enrollment_df = 1"
    by (simp add: overdue_count_def)
  have "enrollment_rate employees_df enrollment_df = 100"
    by (simp add: enrollment_rate_def a u rate_1_1)
  moreover have "deadline_adherence_rate now enrollment_df = 50"
    by (simp add: deadline_adherence_rate_def len od rate_1_2)
  ultimately show ?thesis by simp
qed

text \<open>
  C7 at employee 7 with rows for plans 1 and 2, deadline day 30, current day 100.
\<close>

theorem lone_employee_scenario_witness:
  "enrollment_rate lone_employees lone_enrollment = 100 \<and>
   deadline_adherence_rate (timedelta_days 100) lone_enrollment = 50"
proof (rule lone_employee_scenario[where e = "mk_employee 7 ''Active''"
          and ?r1.0 = "mk_enrollment 1 7 1 (Some (timedelta_days 30)) ''Enrolled''"
          and ?r2.0 = "mk_enrollment 2 7 2 (Some (timedelta_days 30)) ''Pending''"
          and t = "timedelta_days 30"])
  show "mk_employee 7 ''Active'' \<in> set lone_employees" by (simp add: lone_employees_def)
  show "employment_status (mk_employee 7 ''Active'') = ''Active''" by (simp add: mk_employee_def)
  show "\<forall>e'\<in>set lone_employees. employment_status e' = ''Active''
          \<longrightarrow> employee_id e' = employee_id (mk_employee 7 ''Active'')"
    by (simp add: lone_employees_def mk_employee_def)
  show "lone_enrollment = [mk_enrollment 1 7 1 (Some (timedelta_days 30)) ''Enrolled'',
                           mk_enrollment 2 7 2 (Some (timedelta_days 30)) ''Pending''] \<or>
        lone_enrollment = [mk_enrollment 2 7 2 (Some (timedelta_days 30)) ''Pending'',
                           mk_enrollment 1 7 1 (Some (timedelta_days 30)) ''Enrolled'']"
    by (simp add: lone_enrollment_def)
  show "dt_date (timedelta_days 30) < dt_date (timedelta_days 100)"
    by (simp add: dt_date_def timedelta_days_def us_per_day_def)
qed (simp_all add: mk_enrollment_def mk_employee_def)

text \<open>
  C10. Rows whose resolution status is neither Open nor Resolved do not change the
  exception resolution rate, and two tables with the same numbers of Open and of Resolved
  rows have the same rate.
\<close>

theorem exception_resolution_rate_other_statuses:
  "exception_resolution_rate exceptions_df =
     exception_resolution_rate (filter (\<lambda>x. resolution_status x = ''Open''
                                          \<or> resolution_status x = ''Resolved'') exceptions_df) \<and>
   (length (filter (\<lambda>x. resolution_status x = ''Open'') exceptions_df)
      = length (filter (\<lambda>x. resolution_status x = ''Open'') other_df) \<and>
    length (filter (\<lambda>x. resolution_status x = ''Resolved'') exceptions_df)
      = length (filter (\<lambda>x. resolution_status x = ''Resolved'') other_df)
    \<longrightarrow> exception_resolution_rate exceptions_df = exception_resolution_rate other_df)"
proof -
  let ?keep = "\<lambda>x. resolution_status x = ''Open'' \<or> resolution_status x = ''Resolved''"
  have "filter (\<lambda>x. resolution_status x = ''Open'') (filter ?keep exceptions_df)
          = filter (\<lambda>x. resolution_status x = ''Open'') exceptions_df"
    unfolding filter_filter by (rule filter_cong) auto
  then have o: "open_ex (filter ?keep exceptions_df) = open_ex exceptions_df"
    by (simp only: open_ex_def bool_sum_filter)
  have "filter (\<lambda>x. resolution_status x = ''Resolved'') (filter ?keep exceptions_df)
          = filter (\<lambda>x. resolution_status x = ''Resolved'') exceptions_df"
    unfolding filter_filter by (rule filter_cong) auto
  then have r: "resolved_ex (filter ?keep exceptions_df) = resolved_ex exceptions_df"
    by (simp only: resolved_ex_def bool_sum_filter)
  have 1: "exception_resolution_rate exceptions_df
             = exception_resolution_rate (filter ?keep exceptions_df)"
    by (simp only: exception_resolution_rate_def o r)
  have 2: "exception_resolution_rate exceptions_df = exception_resolution_rate other_df"
    if "length (filter (\<lambda>x. resolution_status x = ''Open'') exceptions_df)
          = length (filter (\<lambda>x. resolution_status x = ''Open'') other_df)"
       "length (filter (\<lambda>x. resolution_status x = ''Resolved'') exceptions_df)
          = length (filter (\<lambda>x. resolution_status x = ''Resolved'') other_df)"
    using that by (simp only: exception_resolution_rate_def open_ex_def resolved_ex_def bool_sum_filter)
  from 1 2 show ?thesis by blast
qed

text \<open>
  C10 at a table with a Waived row and a table without one.
\<close>

theorem exception_resolution_rate_other_statuses_witness:
  "length (filter (\<lambda>x. resolution_status x = ''Open'') waived_exceptions)
      = length (filter (\<lambda>x. resolution_status x = ''Open'') plain_exceptions) \<and>
   length (filter (\<lambda>x. resolution_status x = ''Resolved'') waived_exceptions)
      = length (filter (\<lambda>x. resolution_status x = ''Resolved'') plain_exceptions) \<and>
   exception_resolution_rate waived_exceptions = exception_resolution_rate plain_exceptions"
proof -
  have h1: "length (filter (\<lambda>x. resolution_status x = ''Open'') waived_exceptions)
      = length (filter (\<lambda>x. resolution_status x = ''Open'') plain_exceptions)"
    by (simp add: waived_exceptions_def plain_exceptions_def mk_exception_def)
  have h2: "length (filter (\<lambda>x. resolution_status x = ''Resolved'') waived_exceptions)
      = length (filter (\<lambda>x. resolution_status x = ''Resolved'') plain_exceptions)"
    by (simp add: waived_exceptions_def plain_exceptions_def mk_exception_def)
  from mp[OF conjunct2[OF exception_resolution_rate_other_statuses
                            [of waived_exceptions plain_exceptions]] conjI[OF h1 h2]] h1 h2
  show ?thesis by (intro conjI)
qed

subsection \<open>The status summary\<close>

lemma set_q_enrollment_status:
  "set (q_enrollment_status benefits_enrollment) =
     (\<lambda>s. \<lparr>row_enrollment_status = s,
             ct = length (filter (\<lambda>r. enrollment_status r = s) benefits_enrollment)\<rparr>)
       ` enrollment_status ` set benefits_enrollment"
  by (simp add: q_enrollment_status_def)

lemma q_enrollment_status_distinct:
  "distinct (map row_enrollment_status (q_enrollment_status benefits_enrollment))"
proof -
  let ?mk = "\<lambda>s. \<lparr>row_enrollment_status = s,
                   ct = length (filter (\<lambda>r. enrollment_status r = s) benefits_enrollment)\<rparr>"
  let ?keys = "remdups (map enrollment_status benefits_enrollment)"
  have "distinct (map row_enrollment_status (map ?mk ?keys))"
    by (simp add: comp_def)
  then have "distinct (map ?mk ?keys) \<and> inj_on row_enrollment_status (set (map ?mk ?keys))"
    by (simp only: distinct_map)
  then have "distinct (sort_key (\<lambda>row. - int (ct row)) (map ?mk ?keys)) \<and>
     inj_on row_enrollment_status (set (sort_key (\<lambda>row. - int (ct row)) (map ?mk ?keys)))"
    by (simp only: distinct_sort set_sort)
  then show ?thesis
    by (simp only: q_enrollment_status_def distinct_map)
qed

lemma q_enrollment_status_ct:
  assumes "row \<in> set (q_enrollment_status benefits_enrollment)"
  shows "ct row = length (filter (\<lambda>r. enrollment_status r = row_enrollment_status row)
                            benefits_enrollment)"
  using assms unfolding set_q_enrollment_status by auto

lemma q_enrollment_status_statuses:
  "row_enrollment_status ` set (q_enrollment_status benefits_enrollment)
     = enrollment_status ` set benefits_enrollment"
  unfolding set_q_enrollment_status by (simp add: image_image)

lemma status_count_q_enrollment_status:
  "status_count (q_enrollment_status benefits_enrollment) s
     = length (filter (\<lambda>r. enrollment_status r = s) benefits_enrollment)"
proof (cases "find (\<lambda>row. row_enrollment_status row = s) (q_enrollment_status benefits_enrollment)")
  case None
  then have "\<not> (\<exists>row \<in> set (q_enrollment_status benefits_enrollment).
                  row_enrollment_status row = s)"
    by (simp add: find_None_iff)
  then have "s \<notin> row_enrollment_status ` set (q_enrollment_status benefits_enrollment)"
    by blast
  then have "s \<notin> enrollment_status ` set benefits_enrollment"
    unfolding q_enrollment_status_statuses .
  then have "filter (\<lambda>r. enrollment_status r = s) benefits_enrollment = []"
    by (auto simp: filter_empty_conv)
  with None show ?thesis by (simp add: status_count_def)
next
  case (Some row)
  then have "row \<in> set (q_enrollment_status benefits_enrollment) \<and> row_enrollment_status row = s"
    by (auto simp: find_Some_iff)
  with q_enrollment_status_ct[of row benefits_enrollment] Some show ?thesis
    by (simp add: status_count_def)
qed

lemma three_status_partition:
  assumes "\<forall>r\<in>set enrollment_df. enrollment_status r = ''Enrolled''
             \<or> enrollment_status r = ''Pending'' \<or> enrollment_status r = ''Declined''"
  shows "length (filter (\<lambda>r. enrollment_status r = ''Pending'') enrollment_df)
       + length (filter (\<lambda>r. enrollment_status r = ''Enrolled'') enrollment_df)
       + length (filter (\<lambda>r. enrollment_status r = ''Declined'') enrollment_df)
       = length enrollment_df"
  using assms by (induction enrollment_df) auto

text \<open>
  C6. The status summary has one row for each status that occurs in the enrollment table,
  and the count of a row is the number of enrollment rows of its status. When every
  enrollment row has status Enrolled, Pending or Declined, the pending count of the KPIs
  plus the summary's count for Enrolled plus the summary's count for Declined is the number
  of enrollment rows.
\<close>

theorem status_counts_partition:
  assumes "\<forall>r\<in>set enrollment_df. enrollment_status r = ''Enrolled''
             \<or> enrollment_status r = ''Pending'' \<or> enrollment_status r = ''Declined''"
  shows "distinct (map row_enrollment_status (q_enrollment_status enrollment_df)) \<and>
         row_enrollment_status ` set (q_enrollment_status enrollment_df)
           = enrollment_status ` set enrollment_df \<and>
         (\<forall>row \<in> set (q_enrollment_status enrollment_df).
            ct row = length (filter (\<lambda>r. enrollment_status r = row_enrollment_status row)
                               enrollment_df)) \<and>
         pendings enrollment_df
           + status_count (q_enrollment_status enrollment_df) ''Enrolled''
           + status_count (q_enrollment_status enrollment_df) ''Declined''
           = length enrollment_df"
proof (intro conjI ballI)
  show "distinct (map row_enrollment_status (q_enrollment_status enrollment_df))"
    by (rule q_enrollment_status_distinct)
  show "row_enrollment_status ` set (q_enrollment_status enrollment_df)
           = enrollment_status ` set enrollment_df"
    by (rule q_enrollment_status_statuses)
  show "ct row = length (filter (\<lambda>r. enrollment_status r = row_enrollment_status row)
                               enrollment_df)"
    if "row \<in> set (q_enrollment_status enrollment_df)" for row
    using that by (rule q_enrollment_status_ct)
  show "pendings enrollment_df
           + status_count (q_enrollment_status enrollment_df) ''Enrolled''
           + status_count (q_enrollment_status enrollment_df) ''Declined''
           = length enrollment_df"
    using three_status_partition[OF assms]
    by (simp only: pendings_def bool_sum_filter status_count_q_enrollment_status)
qed

text \<open>
  C6 at a table of four rows with all three statuses, two of them Enrolled: the summary
  has three rows and reads 2 for Enrolled and 1 for Declined, and one row is pending.
\<close>

theorem status_counts_partition_witness:
  "pendings mixed_enrollment
     + status_count (q_enrollment_status mixed_enrollment) ''Enrolled''
     + status_count (q_enrollment_status mixed_enrollment) ''Declined''
     = length mixed_enrollment \<and>
   pendings mixed_enrollment = 1 \<and>
   status_count (q_enrollment_status mixed_enrollment) ''Enrolled'' = 2 \<and>
   status_count (q_enrollment_status mixed_enrollment) ''Declined'' = 1 \<and>
   length (q_enrollment_status mixed_enrollment) = 3 \<and>
   length mixed_enrollment = 4"
proof -
  have h: "\<forall>r\<in>set mixed_enrollment. enrollment_status r = ''Enrolled''
             \<or> enrollment_status r = ''Pending'' \<or> enrollment_status r = ''Declined''"
    by (simp add: mixed_enrollment_def mk_enrollment_def)
  have p: "pendings mixed_enrollment
     + status_count (q_enrollment_status mixed_enrollment) ''Enrolled''
     + status_count (q_enrollment_status mixed_enrollment) ''Declined''
     = length mixed_enrollment"
    using status_counts_partition[OF h] by (elim conjE)
  have v: "pendings mixed_enrollment = 1"
    by code_simp
  have e: "status_count (q_enrollment_status mixed_enrollment) ''Enrolled'' = 2"
    by code_simp
  have d: "status_count (q_enrollment_status mixed_enrollment) ''Declined'' = 1"
    by code_simp
  have n: "length (q_enrollment_status mixed_enrollment) = 3"
    by code_simp
  have l: "length mixed_enrollment = 4" by (simp add: mixed_enrollment_def)
  from p v e d n l show ?thesis by (intro conjI)
qed

subsection \<open>The department overview\<close>

lemma set_left_join:
  "set (left_join ls rs on) =
     {(l, Some r) | l r. l \<in> set ls \<and> r \<in> set rs \<and> on l r} \<union>
     {(l, None) | l. l \<in> set ls \<and> (\<forall>r\<in>set rs. \<not> on l r)}"
proof -
  have one: "set (case filter (on l) rs of [] \<Rightarrow> [(l, None)] | ms \<Rightarrow> map (\<lambda>r. (l, Some r)) ms)
      = {(l, Some r) | r. r \<in> set rs \<and> on l r} \<union>
        {(l, None) | u::unit. \<forall>r\<in>set rs. \<not> on l r}" for l
  proof (cases "filter (on l) rs")
    case Nil
    then have "\<forall>r\<in>set rs. \<not> on l r" by (simp add: filter_empty_conv)
    with Nil show ?thesis by auto
  next
    case (Cons m ms)
    then have "m \<in> set (filter (on l) rs)" by simp
    then have ex: "\<exists>r\<in>set rs. on l r" by auto
    have "set (map (\<lambda>r. (l, Some r)) (filter (on l) rs)) = {(l, Some r) | r. r \<in> set rs \<and> on l r}"
      by auto
    with Cons ex show ?thesis by auto
  qed
  show ?thesis
    unfolding left_join_def set_concat set_map image_image one by blast
qed

lemma left_join_Some:
  "(l, Some r) \<in> set (left_join ls rs on) \<Longrightarrow> l \<in> set ls \<and> r \<in> set rs \<and> on l r"
  by (auto simp: set_left_join)

lemma left_join_fst: "row \<in> set (left_join ls rs on) \<Longrightarrow> fst row \<in> set ls"
  by (auto simp: set_left_join)

lemma left_join_covers: "l \<in> set ls \<Longrightarrow> \<exists>row\<in>set (left_join ls rs on). fst row = l"
proof (cases "\<exists>r\<in>set rs. on l r")
  case True
  assume "l \<in> set ls"
  with True obtain r where "(l, Some r) \<in> set (left_join ls rs on)"
    by (auto simp: set_left_join)
  then show ?thesis by force
next
  case False
  assume "l \<in> set ls"
  with False have "(l, None) \<in> set (left_join ls rs on)"
    by (auto simp: set_left_join)
  then show ?thesis by force
qed

lemma set_non_null: "set (non_null xs) = {x. Some x \<in> set xs}"
  by (induction xs) (auto simp: non_null_def)

lemma count_distinct_card: "count_distinct xs = card {x. Some x \<in> set xs}"
  by (simp add: count_distinct_def length_remdups_card_conv set_non_null)

lemma finite_Some_set: "finite {x. Some x \<in> set xs}"
  by (simp flip: set_non_null)

lemma src_en_has_employee:
  assumes "row \<in> set (dept_overview_from departments employees benefits_enrollment
                         compliance_exceptions)"
    and "src_en row = Some k"
  shows "\<exists>e. src_e row = Some e \<and> employee_id e = k"
proof -
  let ?j1 = "left_join departments employees (\<lambda>d e. d_department_id d = department_id e)"
  let ?on2 = "\<lambda>de en. case snd de of None \<Rightarrow> False | Some e \<Rightarrow> employee_id e = en"
  let ?j2 = "left_join ?j1 (enrolled benefits_enrollment) ?on2"
  from assms(1) have "fst row \<in> set ?j2"
    unfolding dept_overview_from_def by (rule left_join_fst)
  moreover have "fst row = (fst (fst row), Some k)"
    using assms(2) by (simp add: src_en_def prod_eq_iff)
  ultimately have "(fst (fst row), Some k) \<in> set ?j2" by simp
  then have "?on2 (fst (fst row)) k" by (auto dest: left_join_Some)
  then show ?thesis by (auto simp: src_e_def split: option.splits)
qed

lemma enrolled_le_total:
  assumes "set rows \<subseteq> set (dept_overview_from departments employees benefits_enrollment
                               compliance_exceptions)"
  shows "count_distinct (map src_en rows)
           \<le> count_distinct (map (\<lambda>row. map_option employee_id (src_e row)) rows)"
proof -
  have "{x. Some x \<in> set (map src_en rows)}
          \<subseteq> {x. Some x \<in> set (map (\<lambda>row. map_option employee_id (src_e row)) rows)}"
  proof
    fix k assume "k \<in> {x. Some x \<in> set (map src_en rows)}"
    then obtain row where row: "row \<in> set rows" "src_en row = Some k" by auto
    with assms src_en_has_employee obtain e where "src_e row = Some e" "employee_id e = k"
      by blast
    with row(1) have "Some k \<in> (\<lambda>row. map_option employee_id (src_e row)) ` set rows"
      by force
    then show "k \<in> {x. Some x \<in> set (map (\<lambda>row. map_option employee_id (src_e row)) rows)}"
      by simp
  qed
  then show ?thesis
    unfolding count_distinct_card by (intro card_mono finite_Some_set)
qed

lemma round_half_away_nonneg: "0 \<le> x \<Longrightarrow> 0 \<le> round_half_away x"
  by (simp add: round_half_away_def)

lemma round_half_away_le: "0 \<le> x \<Longrightarrow> x \<le> of_int k \<Longrightarrow> round_half_away x \<le> k"
proof -
  assume "0 \<le> x" "x \<le> of_int k"
  then have "x + 1 / 2 < of_int (k + 1)" by simp
  then have "\<lfloor>x + 1 / 2\<rfloor> < k + 1" by (simp only: floor_less_iff)
  with \<open>0 \<le> x\<close> show ?thesis by (simp add: round_half_away_def)
qed

lemma sql_round2_percent:
  assumes "0 \<le> x" "x \<le> 100"
  shows "0 \<le> sql_round2 x \<and> sql_round2 x \<le> 100"
proof -
  let ?y = "fmul x 100"
  have y0: "0 \<le> ?y" using assms(1) by (simp add: fmul_def float64_nonneg)
  have "x * 100 \<le> of_int 10000" using assms(2) by simp
  moreover have "0 \<le> x * 100" using assms(1) by simp
  ultimately have "float64 (x * 100) \<le> of_int 10000"
    by (intro float64_le_of_int) simp_all
  then have y1: "?y \<le> of_int 10000" by (simp add: fmul_def)
  let ?r = "round_half_away ?y"
  have r0: "0 \<le> ?r" using y0 by (rule round_half_away_nonneg)
  have r1: "?r \<le> 10000" using y0 y1 by (rule round_half_away_le)
  have q0: "(0::rat) \<le> of_int ?r / 100" using r0 by simp
  have "(of_int ?r :: rat) \<le> of_int 10000" using r1 by (simp only: of_int_le_iff)
  then have q1: "(of_int ?r :: rat) / 100 \<le> of_int 100" by simp
  have "float64 (of_int ?r / 100) \<le> of_int 100"
    using q0 q1 by (intro float64_le_of_int) simp_all
  moreover have "0 \<le> float64 (of_int ?r / 100)" using q0 by (rule float64_nonneg)
  ultimately show ?thesis by (simp add: sql_round2_def fdiv_def)
qed

lemma percent_quotient:
  assumes "m \<le> n" "0 < n"
  shows "0 \<le> fdiv (of_nat m * 100) (of_nat n) \<and> fdiv (of_nat m * 100) (of_nat n) \<le> 100"
proof -
  have "(of_nat m :: rat) \<le> of_nat n" using assms(1) by simp
  then have "(of_nat m :: rat) * 100 \<le> 100 * of_nat n" by simp
  then have le: "(of_nat m :: rat) * 100 / of_nat n \<le> of_int 100"
    using assms(2) by (simp add: pos_divide_le_eq)
  have ge: "(0::rat) \<le> of_nat m * 100 / of_nat n" by simp
  have "float64 (of_nat m * 100 / of_nat n) \<le> of_int 100"
    using ge le by (intro float64_le_of_int) simp_all
  moreover have "0 \<le> float64 (of_nat m * 100 / of_nat n)" using ge by (rule float64_nonneg)
  ultimately show ?thesis by (simp add: fdiv_def)
qed

lemma set_order_desc_nulls_last: "set (order_desc_nulls_last k rows) = set rows"
  by (auto simp: order_desc_nulls_last_def)

lemma overview_group_rate:
  "row_enrollment_rate (overview_group g rows) =
     (if total_employees (overview_group g rows) = 0 then None
      else Some (sql_round2 (fdiv (of_nat (enrolled_employees (overview_group g rows)) * 100)
                                  (of_nat (total_employees (overview_group g rows))))))"
  by (simp add: overview_group_def Let_def nullif_zero_def)

lemma overview_group_le:
  assumes "set rows \<subseteq> set (dept_overview_from departments employees benefits_enrollment
                               compliance_exceptions)"
  shows "enrolled_employees (overview_group g rows) \<le> total_employees (overview_group g rows)"
  using enrolled_le_total[OF assms] by (simp add: overview_group_def Let_def)

lemma q_dept_overview_rows:
  assumes "row \<in> set (q_dept_overview departments employees benefits_enrollment
                          compliance_exceptions)"
  shows "\<exists>g rows. row = overview_group g rows \<and>
           set rows \<subseteq> set (dept_overview_from departments employees benefits_enrollment
                               compliance_exceptions)"
proof -
  let ?src = "dept_overview_from departments employees benefits_enrollment compliance_exceptions"
  from assms obtain g where
    "row = overview_group g (filter (\<lambda>row. department_name (src_d row) = g) ?src)"
    by (auto simp: q_dept_overview_def Let_def set_order_desc_nulls_last)
  moreover have "set (filter (\<lambda>row. department_name (src_d row) = g) ?src) \<subseteq> set ?src"
    by simp
  ultimately show ?thesis by blast
qed

lemma q_dept_overview_names:
  "row_department_name ` set (q_dept_overview departments employees benefits_enrollment
                                compliance_exceptions) = department_name ` set departments"
proof -
  let ?src = "dept_overview_from departments employees benefits_enrollment compliance_exceptions"
  have n: "row_department_name (overview_group g rows) = g" for g rows
    by (simp add: overview_group_def Let_def)
  have "src_d ` set ?src = set departments"
  proof (intro equalityI subsetI)
    fix d assume "d \<in> src_d ` set ?src"
    then obtain row where "row \<in> set ?src" "d = src_d row" by blast
    then show "d \<in> set departments"
      unfolding dept_overview_from_def src_d_def
      by (auto dest!: left_join_fst)
  next
    fix d assume d: "d \<in> set departments"
    let ?j1 = "left_join departments employees (\<lambda>d e. d_department_id d = department_id e)"
    let ?on2 = "\<lambda>de en. case snd de of None \<Rightarrow> False | Some e \<Rightarrow> employee_id e = en"
    let ?j2 = "left_join ?j1 (enrolled benefits_enrollment) ?on2"
    from left_join_covers[OF d] obtain r1 where r1: "r1 \<in> set ?j1" "fst r1 = d" by blast
    from left_join_covers[OF r1(1)] obtain r2 where r2: "r2 \<in> set ?j2" "fst r2 = r1" by blast
    from left_join_covers[OF r2(1)] obtain r3 where
      r3: "r3 \<in> set (left_join ?j2 compliance_exceptions
             (\<lambda>den ce. case snd (fst den) of None \<Rightarrow> False
                   | Some e \<Rightarrow> employee_id e = ce_employee_id ce))" "fst r3 = r2" by blast
    from r3(1) have "r3 \<in> set ?src" by (simp add: dept_overview_from_def)
    moreover have "src_d r3 = d" using r1 r2 r3 by (simp add: src_d_def)
    ultimately show "d \<in> src_d ` set ?src" by blast
  qed
  then have "(\<lambda>row. department_name (src_d row)) ` set ?src = department_name ` set departments"
    by (simp flip: image_image)
  then show ?thesis
    by (simp add: q_dept_overview_def Let_def set_order_desc_nulls_last image_image n)
qed

lemma left_join_fst_image: "fst ` set (left_join ls rs on) = set ls"
proof (intro equalityI subsetI)
  fix l assume "l \<in> fst ` set (left_join ls rs on)"
  then show "l \<in> set ls" by (auto dest: left_join_fst)
next
  fix l assume "l \<in> set ls"
  from left_join_covers[OF this] show "l \<in> fst ` set (left_join ls rs on)" by force
qed

lemma src_j2:
  "fst ` set (dept_overview_from departments employees benefits_enrollment compliance_exceptions)
     = set (left_join
          (left_join departments employees (\<lambda>d e. d_department_id d = department_id e))
          (enrolled benefits_enrollment)
          (\<lambda>de en. case snd de of None \<Rightarrow> False | Some e \<Rightarrow> employee_id e = en))"
  unfolding dept_overview_from_def by (rule left_join_fst_image)

lemma src_j1:
  "(fst \<circ> fst) ` set (dept_overview_from departments employees benefits_enrollment
                          compliance_exceptions)
     = set (left_join departments employees (\<lambda>d e. d_department_id d = department_id e))"
  by (simp only: image_comp[symmetric] src_j2 left_join_fst_image)

lemma group_employee_ids:
  "{x. Some x \<in> set (map (\<lambda>row. map_option employee_id (src_e row))
          (filter (\<lambda>row. department_name (src_d row) = g)
             (dept_overview_from departments employees benefits_enrollment
                compliance_exceptions)))}
   = {employee_id e | e d. e \<in> set employees \<and> d \<in> set departments \<and>
        department_name d = g \<and> d_department_id d = department_id e}"
  (is "?L = ?R")
proof (intro equalityI subsetI)
  let ?src = "dept_overview_from departments employees benefits_enrollment compliance_exceptions"
  let ?j1 = "left_join departments employees (\<lambda>d e. d_department_id d = department_id e)"
  fix x assume "x \<in> ?L"
  then have "Some x \<in> (\<lambda>row. map_option employee_id (src_e row)) `
      set (filter (\<lambda>row. department_name (src_d row) = g) ?src)" by simp
  then obtain row where r0: "row \<in> set (filter (\<lambda>row. department_name (src_d row) = g) ?src)"
      "Some x = map_option employee_id (src_e row)" by blast
  then have row: "row \<in> set ?src" "department_name (src_d row) = g"
      "map_option employee_id (src_e row) = Some x" by simp_all
  from row(3) obtain e where e: "src_e row = Some e" "employee_id e = x" by blast
  have "(fst \<circ> fst) row \<in> set ?j1" using row(1) src_j1 by blast
  moreover have "(fst \<circ> fst) row = (src_d row, Some e)"
    using e(1) by (simp add: src_d_def src_e_def prod_eq_iff)
  ultimately have "(src_d row, Some e) \<in> set ?j1" by simp
  from left_join_Some[OF this] row(2) e(2) show "x \<in> ?R" by blast
next
  let ?src = "dept_overview_from departments employees benefits_enrollment compliance_exceptions"
  let ?j1 = "left_join departments employees (\<lambda>d e. d_department_id d = department_id e)"
  fix x assume "x \<in> ?R"
  then obtain e d where ed: "e \<in> set employees" "d \<in> set departments" "department_name d = g"
      "d_department_id d = department_id e" "x = employee_id e" by blast
  then have "(d, Some e) \<in> set ?j1" by (auto simp: set_left_join)
  then have "(d, Some e) \<in> (fst \<circ> fst) ` set ?src" by (simp only: src_j1)
  then obtain row where row: "row \<in> set ?src" "(fst \<circ> fst) row = (d, Some e)" by force
  then have "src_d row = d" "src_e row = Some e" by (simp_all add: src_d_def src_e_def)
  with row(1) ed(3,5) have "department_name (src_d row) = g \<and> row \<in> set ?src \<and>
      map_option employee_id (src_e row) = Some x" by simp
  then have "Some x \<in> (\<lambda>row. map_option employee_id (src_e row)) `
      {row \<in> set ?src. department_name (src_d row) = g}" by force
  then show "x \<in> ?L" by simp
qed

lemma group_enrolled_ids:
  "{x. Some x \<in> set (map src_en
          (filter (\<lambda>row. department_name (src_d row) = g)
             (dept_overview_from departments employees benefits_enrollment
                compliance_exceptions)))}
   = {employee_id e | e d. e \<in> set employees \<and> d \<in> set departments \<and>
        department_name d = g \<and> d_department_id d = department_id e \<and>
        (\<exists>r\<in>set benefits_enrollment. be_employee_id r = employee_id e \<and>
             enrollment_status r = ''Enrolled'')}"
  (is "?L = ?R")
proof (intro equalityI subsetI)
  let ?src = "dept_overview_from departments employees benefits_enrollment compliance_exceptions"
  let ?j1 = "left_join departments employees (\<lambda>d e. d_department_id d = department_id e)"
  let ?on2 = "\<lambda>de en. case snd de of None \<Rightarrow> False | Some e \<Rightarrow> employee_id e = en"
  let ?j2 = "left_join ?j1 (enrolled benefits_enrollment) ?on2"
  fix x assume "x \<in> ?L"
  then have "Some x \<in> src_en ` set (filter (\<lambda>row. department_name (src_d row) = g) ?src)"
    by simp
  then obtain row where r0: "row \<in> set (filter (\<lambda>row. department_name (src_d row) = g) ?src)"
      "Some x = src_en row" by blast
  then have row: "row \<in> set ?src" "department_name (src_d row) = g"
      "src_en row = Some x" by simp_all
  have "fst row \<in> set ?j2" using row(1) src_j2 by blast
  moreover have "fst row = (fst (fst row), Some x)"
    using row(3) by (simp add: src_en_def prod_eq_iff)
  ultimately have "(fst (fst row), Some x) \<in> set ?j2" by simp
  from left_join_Some[OF this]
  have j1: "fst (fst row) \<in> set ?j1" and en: "x \<in> set (enrolled benefits_enrollment)"
    and on: "?on2 (fst (fst row)) x" by simp_all
  from on obtain e where e: "snd (fst (fst row)) = Some e" "employee_id e = x"
    by (auto split: option.splits)
  have "fst (fst row) = (src_d row, Some e)"
    using e(1) by (simp add: src_d_def prod_eq_iff)
  with j1 have "(src_d row, Some e) \<in> set ?j1" by simp
  from left_join_Some[OF this]
  have "src_d row \<in> set departments" "e \<in> set employees"
       "d_department_id (src_d row) = department_id e" by simp_all
  moreover from en e(2) have "\<exists>r\<in>set benefits_enrollment. be_employee_id r = employee_id e \<and>
             enrollment_status r = ''Enrolled''"
    by (auto simp: enrolled_def)
  ultimately show "x \<in> ?R" using row(2) e(2) by blast
next
  let ?src = "dept_overview_from departments employees benefits_enrollment compliance_exceptions"
  let ?j1 = "left_join departments employees (\<lambda>d e. d_department_id d = department_id e)"
  let ?on2 = "\<lambda>de en. case snd de of None \<Rightarrow> False | Some e \<Rightarrow> employee_id e = en"
  let ?j2 = "left_join ?j1 (enrolled benefits_enrollment) ?on2"
  fix x assume "x \<in> ?R"
  then obtain e d r where ed: "e \<in> set employees" "d \<in> set departments" "department_name d = g"
      "d_department_id d = department_id e" "x = employee_id e"
      "r \<in> set benefits_enrollment" "be_employee_id r = employee_id e"
      "enrollment_status r = ''Enrolled''" by blast
  then have j1: "(d, Some e) \<in> set ?j1" by (auto simp: set_left_join)
  have en: "x \<in> set (enrolled benefits_enrollment)"
    using ed(5-8) by (force simp: enrolled_def)
  have "?on2 (d, Some e) x" using ed(5) by simp
  with j1 en have "((d, Some e), Some x) \<in> set ?j2"
    unfolding set_left_join[of ?j1 "enrolled benefits_enrollment" ?on2] by blast
  then have "((d, Some e), Some x) \<in> fst ` set ?src" by (simp only: src_j2)
  then obtain row where row: "row \<in> set ?src" "fst row = ((d, Some e), Some x)" by force
  then have "src_d row = d" "src_en row = Some x" by (simp_all add: src_d_def src_en_def)
  with row(1) ed(3) have "Some x \<in> src_en `
      {row \<in> set ?src. department_name (src_d row) = g}" by force
  then show "x \<in> ?L" by simp
qed

lemma overview_group_counts:
  "total_employees (overview_group g rows)
     = card {x. Some x \<in> set (map (\<lambda>row. map_option employee_id (src_e row)) rows)}"
  "enrolled_employees (overview_group g rows) = card {x. Some x \<in> set (map src_en rows)}"
  "row_department_name (overview_group g rows) = g"
  by (simp_all add: overview_group_def Let_def count_distinct_card)

lemma q_dept_overview_counts:
  assumes "row \<in> set (q_dept_overview departments employees benefits_enrollment
                          compliance_exceptions)"
  shows "total_employees row =
           card {employee_id e | e d. e \<in> set employees \<and> d \<in> set departments \<and>
                   department_name d = row_department_name row \<and>
                   d_department_id d = department_id e}"
    and "enrolled_employees row =
           card {employee_id e | e d. e \<in> set employees \<and> d \<in> set departments \<and>
                   department_name d = row_department_name row \<and>
                   d_department_id d = department_id e \<and>
                   (\<exists>r\<in>set benefits_enrollment. be_employee_id r = employee_id e \<and>
                       enrollment_status r = ''Enrolled'')}"
proof -
  let ?src = "dept_overview_from departments employees benefits_enrollment compliance_exceptions"
  from assms obtain g where
    row: "row = overview_group g (filter (\<lambda>row. department_name (src_d row) = g) ?src)"
    by (auto simp: q_dept_overview_def Let_def set_order_desc_nulls_last)
  show "total_employees row =
           card {employee_id e | e d. e \<in> set employees \<and> d \<in> set departments \<and>
                   department_name d = row_department_name row \<and>
                   d_department_id d = department_id e}"
    unfolding row overview_group_counts group_employee_ids ..
  show "enrolled_employees row =
           card {employee_id e | e d. e \<in> set employees \<and> d \<in> set departments \<and>
                   department_name d = row_department_name row \<and>
                   d_department_id d = department_id e \<and>
                   (\<exists>r\<in>set benefits_enrollment. be_employee_id r = employee_id e \<and>
                       enrollment_status r = ''Enrolled'')}"
    unfolding row overview_group_counts group_enrolled_ids ..
qed

lemma distinct_map_order_desc_nulls_last:
  assumes "distinct (map f rows)"
  shows "distinct (map f (order_desc_nulls_last k rows))"
proof -
  from assms have d: "distinct rows" and i: "inj_on f (set rows)"
    by (simp_all add: distinct_map)
  have "distinct (order_desc_nulls_last k rows)"
    using d by (auto simp: order_desc_nulls_last_def)
  moreover have "inj_on f (set (order_desc_nulls_last k rows))"
    using i by (simp only: set_order_desc_nulls_last)
  ultimately show ?thesis by (simp only: distinct_map)
qed

lemma q_dept_overview_distinct:
  "distinct (map row_department_name
     (q_dept_overview departments employees benefits_enrollment compliance_exceptions))"
proof -
  let ?src = "dept_overview_from departments employees benefits_enrollment compliance_exceptions"
  let ?keys = "remdups (map (\<lambda>row. department_name (src_d row)) ?src)"
  let ?mk = "\<lambda>g. overview_group g (filter (\<lambda>row. department_name (src_d row) = g) ?src)"
  have "map row_department_name (map ?mk ?keys) = ?keys"
    by (simp add: comp_def overview_group_counts(3))
  then have "distinct (map row_department_name (map ?mk ?keys))"
    by (simp only: distinct_remdups)
  then have "distinct (map row_department_name
      (order_desc_nulls_last row_enrollment_rate (map ?mk ?keys)))"
    by (rule distinct_map_order_desc_nulls_last)
  then show ?thesis by (simp only: q_dept_overview_def Let_def)
qed

text \<open>
  C2, as stated, fails: for a department without employees \<^verbatim>\<open>NULLIF\<close> makes the
  divisor \<^verbatim>\<open>NULL\<close>, and the rate column is \<^verbatim>\<open>NULL\<close>, not 0.
\<close>

theorem q_dept_overview_empty_department_counterexample:
  "map row_enrollment_rate (q_dept_overview empty_department [] [] []) = [None] \<and>
   map total_employees (q_dept_overview empty_department [] [] []) = [0]"
  by code_simp

text \<open>
  C2, amended. Every row of the department overview has as its employee count the number
  of distinct employees of the departments of its name and as its enrolled count the number
  of those that have an Enrolled row. Its rate is \<^verbatim>\<open>NULL\<close> when the employee count
  is 0; otherwise it is the enrolled count times 100 divided by the employee count, rounded
  to two decimals, and it lies between 0 and 100. Every department has a row, and no two
  rows have the same department name: there is exactly one row for each department name.
\<close>

theorem q_dept_overview_enrollment_rate:
  "(\<forall>row \<in> set (q_dept_overview departments employees benefits_enrollment
                    compliance_exceptions).
      total_employees row =
        card {employee_id e | e d. e \<in> set employees \<and> d \<in> set departments \<and>
                department_name d = row_department_name row \<and>
                d_department_id d = department_id e} \<and>
      enrolled_employees row =
        card {employee_id e | e d. e \<in> set employees \<and> d \<in> set departments \<and>
                department_name d = row_department_name row \<and>
                d_department_id d = department_id e \<and>
                (\<exists>r\<in>set benefits_enrollment. be_employee_id r = employee_id e \<and>
                    enrollment_status r = ''Enrolled'')} \<and>
      enrolled_employees row \<le> total_employees row \<and>
      row_enrollment_rate row =
        (if total_employees row = 0 then None
         else Some (sql_round2 (fdiv (of_nat (enrolled_employees row) * 100)
                                     (of_nat (total_employees row))))) \<and>
      (case row_enrollment_rate row of None \<Rightarrow> True | Some x \<Rightarrow> 0 \<le> x \<and> x \<le> 100)) \<and>
   (\<forall>d \<in> set departments.
      \<exists>row \<in> set (q_dept_overview departments employees benefits_enrollment
                    compliance_exceptions).
        row_department_name row = department_name d) \<and>
   distinct (map row_department_name
     (q_dept_overview departments employees benefits_enrollment compliance_exceptions))"
proof (intro conjI ballI)
  fix row
  assume mem: "row \<in> set (q_dept_overview departments employees benefits_enrollment
                       compliance_exceptions)"
  then obtain g rows where row: "row = overview_group g rows"
    and sub: "set rows \<subseteq> set (dept_overview_from departments employees benefits_enrollment
                               compliance_exceptions)"
    using q_dept_overview_rows by blast
  show "total_employees row =
        card {employee_id e | e d. e \<in> set employees \<and> d \<in> set departments \<and>
                department_name d = row_department_name row \<and>
                d_department_id d = department_id e}"
    using mem by (rule q_dept_overview_counts)
  show "enrolled_employees row =
        card {employee_id e | e d. e \<in> set employees \<and> d \<in> set departments \<and>
                department_name d = row_department_name row \<and>
                d_department_id d = department_id e \<and>
                (\<exists>r\<in>set benefits_enrollment. be_employee_id r = employee_id e \<and>
                    enrollment_status r = ''Enrolled'')}"
    using mem by (rule q_dept_overview_counts)
  show le: "enrolled_employees row \<le> total_employees row"
    unfolding row using sub by (rule overview_group_le)
  show rate: "row_enrollment_rate row =
        (if total_employees row = 0 then None
         else Some (sql_round2 (fdiv (of_nat (enrolled_employees row) * 100)
                                     (of_nat (total_employees row)))))"
    unfolding row by (rule overview_group_rate)
  show "case row_enrollment_rate row of None \<Rightarrow> True | Some x \<Rightarrow> 0 \<le> x \<and> x \<le> 100"
  proof (cases "total_employees row = 0")
    case True
    with rate show ?thesis by simp
  next
    case False
    then have pos: "0 < total_employees row" by simp
    from percent_quotient[OF le pos]
    have "0 \<le> sql_round2 (fdiv (of_nat (enrolled_employees row) * 100)
                                 (of_nat (total_employees row))) \<and>
          sql_round2 (fdiv (of_nat (enrolled_employees row) * 100)
                                 (of_nat (total_employees row))) \<le> 100"
      by (intro sql_round2_percent) simp_all
    with rate False show ?thesis by simp
  qed
next
  fix d assume "d \<in> set departments"
  then have "department_name d \<in> department_name ` set departments" by blast
  then have "department_name d \<in> row_department_name `
      set (q_dept_overview departments employees benefits_enrollment compliance_exceptions)"
    by (simp only: q_dept_overview_names)
  then show "\<exists>row \<in> set (q_dept_overview departments employees benefits_enrollment
                    compliance_exceptions). row_department_name row = department_name d"
    by force
next
  show "distinct (map row_department_name
     (q_dept_overview departments employees benefits_enrollment compliance_exceptions))"
    by (rule q_dept_overview_distinct)
qed

text \<open>
  The amended C2 at two departments, of which Human Resources has three employees, one of
  them enrolled, and Finance has none.
\<close>

theorem q_dept_overview_enrollment_rate_witness:
  "(\<exists>row \<in> set (q_dept_overview two_departments three_employees three_enrollment
                  three_exceptions).
     row_department_name row = ''Human Resources'' \<and>
     enrolled_employees row \<le> total_employees row \<and>
     (case row_enrollment_rate row of None \<Rightarrow> True | Some x \<Rightarrow> 0 \<le> x \<and> x \<le> 100)) \<and>
   distinct (map row_department_name
     (q_dept_overview two_departments three_employees three_enrollment three_exceptions))"
proof -
  let ?q = "q_dept_overview two_departments three_employees three_enrollment three_exceptions"
  note inst = q_dept_overview_enrollment_rate[of two_departments three_employees
      three_enrollment three_exceptions]
  have d: "\<lparr>d_department_id = 1, department_name = ''Human Resources''\<rparr> \<in> set two_departments"
    by (simp add: two_departments_def)
  from conjunct1[OF conjunct2[OF inst]] d obtain row where
    row: "row \<in> set ?q" "row_department_name row = ''Human Resources''"
    by force
  from conjunct1[OF inst] row(1)
  have "enrolled_employees row \<le> total_employees row \<and>
     (case row_enrollment_rate row of None \<Rightarrow> True | Some x \<Rightarrow> 0 \<le> x \<and> x \<le> 100)"
    by blast
  with row have "\<exists>row \<in> set ?q.
     row_department_name row = ''Human Resources'' \<and>
     enrolled_employees row \<le> total_employees row \<and>
     (case row_enrollment_rate row of None \<Rightarrow> True | Some x \<Rightarrow> 0 \<le> x \<and> x \<le> 100)"
    by blast
  with conjunct2[OF conjunct2[OF inst]] show ?thesis by (intro conjI)
qed

subsection \<open>Synthetic data generation\<close>












end
